theory Spec2Isabelle
  imports Main "HOL-Library.Word" "HOL-Library.Monad_Syntax"
begin

unbundle bit_operations_syntax

section \<open>The Gift-ed type system: types/BaseType.cpp\<close>

text \<open>
  The file declares the abstract class \<open>GiftedBaseType\<close>, its one concrete subclass
  \<open>GiftedIntegerType\<close> (a \<open>std::uint64_t _value\<close>), and a driver \<open>main\<close>.

  \<^item> The comparison methods are \<open>const\<close> and report through a \<open>bool &result\<close>. They are
    functions from the two instances and the content of \<open>result\<close> on entry to its content
    on return, so a method that returns without assigning \<open>result\<close> returns the entry value.
  \<^item> The methods that create or change an instance (\<open>Clone\<close>, \<open>UnMarshall\<close>,
    \<open>AddToLeft\<close>, \<open>VectorizedEqual\<close>) take pointers that may name the same instance. They
    work on a store of instances and return the new store; \<open>None\<close> stands for undefined
    behaviour (a pointer to no live instance of the class, a read or write past the end of
    an array).
  \<^item> Raw data (\<open>const char*\<close>) is an array of bytes with an offset into it. How eight
    bytes make a \<open>std::uint64_t\<close> depends on the host; the byte order is a parameter.
\<close>

subsection \<open>Type identifiers and instances\<close>

text \<open>\<open>enum GiftedTypeId { _GiftedUnknownTypeId = -1, _GiftedIntTypeId }\<close>.\<close>

datatype GiftedTypeId = GiftedUnknownTypeId | GiftedIntTypeId

text \<open>
  What a \<open>GiftedBaseType*\<close> may point to: a \<open>GiftedIntegerType\<close> with its field
  \<open>_value\<close> (written \<open>value'\<close>), or an instance of some other subclass. The file defines no
  other subclass; \<open>GiftedUnknownType\<close> stands for one that keeps the \<open>myType\<close> of the base
  class, which returns \<open>_GiftedUnknownTypeId\<close>.
\<close>

datatype GiftedBaseType = GiftedIntegerType (value': "64 word") | GiftedUnknownType

fun myType :: "GiftedBaseType \<Rightarrow> GiftedTypeId" where
  "myType (GiftedIntegerType v) = GiftedIntTypeId"
| "myType GiftedUnknownType = GiftedUnknownTypeId"

text \<open>\<open>GiftedIntegerType::getLength\<close> returns \<open>sizeof(std::uint64_t)\<close>.\<close>

definition getLength :: nat where
  "getLength = 8"

subsection \<open>Comparison operators\<close>

text \<open>
  \<open>GiftedIntegerType::Equal\<close> and \<open>GiftedIntegerType::LessThan\<close>. The receiver \<open>this\<close> is
  a \<open>GiftedIntegerType\<close>; \<open>right\<close> is any instance. The comparison of the two
  \<open>std::uint64_t\<close> fields is unsigned, as \<open>=\<close> and \<open><\<close> on words are. When the type
  identifier of \<open>right\<close> is not \<open>_GiftedIntTypeId\<close> the method returns without assigning
  \<open>result\<close>.
\<close>

definition Equal :: "GiftedBaseType \<Rightarrow> GiftedBaseType \<Rightarrow> bool \<Rightarrow> bool" where
  "Equal this right result =
     (if myType right = GiftedIntTypeId then (value' this = value' right) else result)"

definition LessThan :: "GiftedBaseType \<Rightarrow> GiftedBaseType \<Rightarrow> bool \<Rightarrow> bool" where
  "LessThan this right result =
     (if myType right = GiftedIntTypeId then (value' this < value' right) else result)"

text \<open>
  The defaults of the base class, which \<open>GiftedIntegerType\<close> does not override. Their
  calls of \<open>Equal\<close> and \<open>LessThan\<close> are virtual and, for a \<open>GiftedIntegerType\<close> receiver,
  reach the two methods above; the same \<open>result\<close> is handed on and then flipped in place
  (\<open>result =! result\<close>).
\<close>

definition NotEqual :: "GiftedBaseType \<Rightarrow> GiftedBaseType \<Rightarrow> bool \<Rightarrow> bool" where
  "NotEqual this right result = (let result = Equal this right result in \<not> result)"

definition LessThanOrEqual :: "GiftedBaseType \<Rightarrow> GiftedBaseType \<Rightarrow> bool \<Rightarrow> bool" where
  "LessThanOrEqual this right result =
     (let result = LessThan this right result
      in if \<not> result then Equal this right result else result)"

definition GreaterThan :: "GiftedBaseType \<Rightarrow> GiftedBaseType \<Rightarrow> bool \<Rightarrow> bool" where
  "GreaterThan this right result =
     (let result = LessThanOrEqual this right result in \<not> result)"

definition GreaterThanOrEqual :: "GiftedBaseType \<Rightarrow> GiftedBaseType \<Rightarrow> bool \<Rightarrow> bool" where
  "GreaterThanOrEqual this right result =
     (let result = LessThan this right result in \<not> result)"

subsection \<open>Raw data\<close>

text \<open>
  \<open>*reinterpret_cast<const std::uint64_t*>(payload)\<close> reads the eight bytes at
  \<open>payload\<close> as one 64-bit unsigned integer, in the byte order of the host.
  \<open>u64_of_le\<close> puts the first byte into the low eight bits.
\<close>

type_synonym byte = "8 word"

datatype byte_order = LittleEndian | BigEndian

fun u64_of_le :: "byte list \<Rightarrow> 64 word" where
  "u64_of_le [] = 0"
| "u64_of_le (b # bs) = ucast b OR push_bit 8 (u64_of_le bs)"

definition u64_of_bytes :: "byte_order \<Rightarrow> byte list \<Rightarrow> 64 word" where
  "u64_of_bytes bo bs =
     (case bo of LittleEndian \<Rightarrow> u64_of_le bs | BigEndian \<Rightarrow> u64_of_le (rev bs))"

text \<open>
  The other direction, which the driver uses to make its test data:
  \<open>reinterpret_cast<char*>(&_onDisk)\<close> is the eight bytes of a 64-bit integer in memory.
  A \<open>std::int64_t\<close> and the \<open>std::uint64_t\<close> of the same bits have the same bytes.
\<close>

definition bytes_of_u64 :: "byte_order \<Rightarrow> 64 word \<Rightarrow> byte list" where
  "bytes_of_u64 bo v =
     (let le = map (\<lambda>k. ucast (drop_bit (8 * k) v)) [0..<8]
      in case bo of LittleEndian \<Rightarrow> le | BigEndian \<Rightarrow> rev le)"

text \<open>
  A \<open>const char*\<close>: the array pointed into and the offset of the pointer in it. A read
  of eight bytes that does not lie inside the array is undefined.
\<close>

type_synonym char_ptr = "byte list \<times> nat"

definition ptr_add :: "char_ptr \<Rightarrow> nat \<Rightarrow> char_ptr" where
  "ptr_add p k = (fst p, snd p + k)"

definition load_u64 :: "byte_order \<Rightarrow> char_ptr \<Rightarrow> 64 word option" where
  "load_u64 bo p =
     (case p of (buf, off) \<Rightarrow>
        if off + 8 \<le> length buf then Some (u64_of_bytes bo (take 8 (drop off buf))) else None)"

text \<open>\<open>std::size_t\<close> is 64 bits wide: the product \<open>i*elementLength\<close> wraps around.\<close>

definition size_t_mult :: "nat \<Rightarrow> nat \<Rightarrow> nat" where
  "size_t_mult a b = unat (word_of_nat a * word_of_nat b :: 64 word)"

subsection \<open>The store of instances\<close>

text \<open>
  An address is an index into the store; a cell is \<open>None\<close> once its instance is deleted.
  \<open>new GiftedIntegerType\<close> runs the constructor \<open>GiftedIntegerType():_value(0)\<close> on a
  cell that no pointer names yet.
\<close>

type_synonym addr = nat

type_synonym heap = "GiftedBaseType option list"

definition deref :: "heap \<Rightarrow> addr \<Rightarrow> GiftedBaseType option" where
  "deref h p = (if p < length h then h ! p else None)"

definition new_GiftedIntegerType :: "heap \<Rightarrow> addr \<times> heap" where
  "new_GiftedIntegerType h = (length h, h @ [Some (GiftedIntegerType 0)])"

definition delete :: "heap \<Rightarrow> addr \<Rightarrow> heap option" where
  "delete h p = (case deref h p of Some x \<Rightarrow> Some (h[p := None]) | None \<Rightarrow> None)"

subsection \<open>The methods of GiftedIntegerType that change the store\<close>

text \<open>
  The receiver must be a live \<open>GiftedIntegerType\<close>: these are its overrides, and the base
  class leaves \<open>Clone\<close>, \<open>UnMarshall\<close> and \<open>AddToLeft\<close> pure virtual.

  \<open>Clone\<close> is \<open>return new GiftedIntegerType;\<close>.
\<close>

definition Clone :: "heap \<Rightarrow> addr \<Rightarrow> (addr \<times> heap) option" where
  "Clone h this =
     (case deref h this of
        Some (GiftedIntegerType v) \<Rightarrow> Some (new_GiftedIntegerType h)
      | _ \<Rightarrow> None)"

text \<open>\<open>UnMarshall\<close> assigns \<open>_value\<close> from the payload; its parameter \<open>length\<close> is not used.\<close>

definition UnMarshall :: "byte_order \<Rightarrow> heap \<Rightarrow> addr \<Rightarrow> char_ptr \<Rightarrow> nat \<Rightarrow> heap option" where
  "UnMarshall bo h this payload length' =
     (case deref h this of
        Some (GiftedIntegerType v) \<Rightarrow>
          (case load_u64 bo payload of
             Some v' \<Rightarrow> Some (h[this := Some (GiftedIntegerType v')])
           | None \<Rightarrow> None)
      | _ \<Rightarrow> None)"

text \<open>
  \<open>AddToLeft\<close>: \<open>_value += right->_value\<close> on \<open>std::uint64_t\<close>, or a plain \<open>return\<close>
  when the type identifier of \<open>right\<close> is not \<open>_GiftedIntTypeId\<close>.
\<close>

definition AddToLeft :: "heap \<Rightarrow> addr \<Rightarrow> addr \<Rightarrow> heap option" where
  "AddToLeft h this right =
     (case (deref h this, deref h right) of
        (Some (GiftedIntegerType v), Some r) \<Rightarrow>
          if myType r = GiftedIntTypeId
          then Some (h[this := Some (GiftedIntegerType (v + value' r))])
          else Some h
      | _ \<Rightarrow> None)"

subsection \<open>VectorizedEqual\<close>

text \<open>
  The loop \<open>for (i=0; i<vectorLength; i++)\<close> of the default \<open>VectorizedEqual\<close>: decode
  element \<open>i\<close> into the first scratch instance, compare it with the second, and let
  \<open>Equal\<close> write \<open>result[i]\<close>.
\<close>

function VectorizedEqual_loop ::
  "byte_order \<Rightarrow> addr \<Rightarrow> addr \<Rightarrow> nat \<Rightarrow> char_ptr \<Rightarrow> nat \<Rightarrow> nat \<Rightarrow> heap \<times> bool list
     \<Rightarrow> (heap \<times> bool list) option" where
  "VectorizedEqual_loop bo callerTypeInstance literalInstance elementLength vectorDataElements
       vectorLength i (h, result) =
     (if i < vectorLength then
        do {
          h' \<leftarrow> UnMarshall bo h callerTypeInstance
                 (ptr_add vectorDataElements (size_t_mult i elementLength)) elementLength;
          caller \<leftarrow> deref h' callerTypeInstance;
          literal \<leftarrow> deref h' literalInstance;
          if i < length result
          then VectorizedEqual_loop bo callerTypeInstance literalInstance elementLength
                 vectorDataElements vectorLength (Suc i)
                 (h', result[i := Equal caller literal (result ! i)])
          else None
        }
      else Some (h, result))"
  by pat_completeness auto
termination
  by (relation "measure (\<lambda>(bo, c, l, w, v, n, i, s). n - i)") auto

declare VectorizedEqual_loop.simps [simp del]

text \<open>
  The method: two clones of the receiver, the literal decoded into the second, the loop,
  and the two \<open>delete\<close>s.
\<close>

definition VectorizedEqual ::
  "byte_order \<Rightarrow> heap \<Rightarrow> addr \<Rightarrow> nat \<Rightarrow> char_ptr \<Rightarrow> nat \<Rightarrow> char_ptr \<Rightarrow> bool list
     \<Rightarrow> (heap \<times> bool list) option" where
  "VectorizedEqual bo h this elementLength vectorDataElements vectorLength rawLiteralData result =
     do {
       (callerTypeInstance, h1) \<leftarrow> Clone h this;
       (literalInstance, h2) \<leftarrow> Clone h1 this;
       h3 \<leftarrow> UnMarshall bo h2 literalInstance rawLiteralData elementLength;
       (h4, result') \<leftarrow> VectorizedEqual_loop bo callerTypeInstance literalInstance elementLength
                          vectorDataElements vectorLength 0 (h3, result);
       h5 \<leftarrow> delete h4 callerTypeInstance;
       h6 \<leftarrow> delete h5 literalInstance;
       Some (h6, result')
     }"

text \<open>
  The instance that a buffer decodes to when taken on its own: \<open>UnMarshall\<close> on a new
  instance, with the buffer and its length.
\<close>

definition decode :: "byte_order \<Rightarrow> byte list \<Rightarrow> GiftedBaseType option" where
  "decode bo buf =
     (case new_GiftedIntegerType [] of
        (p, h) \<Rightarrow> UnMarshall bo h p (buf, 0) (length buf) \<bind> (\<lambda>h'. deref h' p))"

subsection \<open>The driver\<close>

text \<open>
  The first lines of \<open>main\<close>: \<open>anAttr\<close> is decoded from \<open>_onDisk = 13\<close>, then
  \<open>_onDisk *= 2\<close> and \<open>anotherAttr\<close> is decoded from it, each with
  \<open>sizeof(std::int64_t)\<close> as length.
\<close>

definition main_attrs :: "byte_order \<Rightarrow> (addr \<times> addr \<times> heap) option" where
  "main_attrs bo =
     (let onDisk = 13 in
      case new_GiftedIntegerType [] of (anAttr, h0) \<Rightarrow>
      do {
        h1 \<leftarrow> UnMarshall bo h0 anAttr (bytes_of_u64 bo onDisk, 0) 8;
        let onDisk = onDisk * 2 in
        case new_GiftedIntegerType h1 of (anotherAttr, h2) \<Rightarrow>
        do {
          h3 \<leftarrow> UnMarshall bo h2 anotherAttr (bytes_of_u64 bo onDisk, 0) 8;
          Some (anAttr, anotherAttr, h3)
        }
      })"

text \<open>
  The test vector \<open>_onDiskB[i] = i%2 ? i : i*2\<close> for \<open>i < _vectorCardinality\<close>, and an
  array of 64-bit integers seen through \<open>reinterpret_cast<char*>\<close>.
\<close>

definition vectorCardinality :: nat where
  "vectorCardinality = 1024"

definition onDiskB :: "nat \<Rightarrow> 64 word" where
  "onDiskB i = (if i mod 2 \<noteq> 0 then of_nat i else of_nat (i * 2))"

definition raw_data :: "byte_order \<Rightarrow> 64 word list \<Rightarrow> byte list" where
  "raw_data bo xs = concat (map (bytes_of_u64 bo) xs)"

section \<open>Auxiliary facts\<close>

subsection \<open>Bytes and 64-bit integers\<close>

text \<open>Byte \<open>n div 8\<close> of the list supplies bit \<open>n\<close> of the value.\<close>

lemma bit_u64_of_le:
  "bit (u64_of_le bs) n \<longleftrightarrow> n < 64 \<and> n div 8 < length bs \<and> bit (bs ! (n div 8)) (n mod 8)"
proof (induction bs arbitrary: n)
  case Nil
  then show ?case by simp
next
  case (Cons b bs)
  show ?case
  proof (cases "n < 8")
    case True
    then show ?thesis
      by (simp add: bit_simps)
  next
    case False
    then have n: "n div 8 = Suc ((n - 8) div 8)" "n mod 8 = (n - 8) mod 8"
      by (simp_all add: le_div_geq le_mod_geq)
    from False have "bit (ucast b :: 64 word) n = False"
      by (auto simp add: bit_simps dest: bit_imp_le_length)
    with False n show ?thesis
      by (auto simp add: bit_simps Cons.IH)
  qed
qed

lemma u64_of_le_bytes:
  "u64_of_le (map (\<lambda>k. ucast (drop_bit (8 * k) v)) [0..<8]) = v"
  by (rule bit_word_eqI) (simp add: bit_u64_of_le bit_simps less_mult_imp_div_less)

text \<open>What the host wrote as a 64-bit integer, it reads back.\<close>

lemma u64_of_bytes_of_u64: "u64_of_bytes bo (bytes_of_u64 bo v) = v"
  by (cases bo) (simp_all add: u64_of_bytes_def bytes_of_u64_def u64_of_le_bytes del: upt_Suc)

lemma length_bytes_of_u64: "length (bytes_of_u64 bo v) = 8"
  by (cases bo) (simp_all add: bytes_of_u64_def)

lemma upt8: "[0..<8] = [0, 1, 2, 3, 4, 5, 6, 7]"
  by (simp add: upt_conv_Cons)

text \<open>The arithmetic reading: the bytes are the base-256 digits of the value.\<close>

lemma ucast_or_push_bit: "ucast (b :: byte) OR push_bit 8 (w :: 64 word) = ucast b + 256 * w"
proof -
  have "ucast b + push_bit 8 w = ucast b OR push_bit 8 w"
    by (rule disjunctive_add) (auto simp add: bit_simps dest: bit_imp_le_length)
  then show ?thesis
    by (simp add: push_bit_eq_mult mult.commute)
qed

lemma u64_of_le_horner: "u64_of_le bs = word_of_nat (horner_sum unat 256 bs)"
  by (induction bs) (simp_all add: ucast_or_push_bit)

lemma horner_sum_bytes_less: "horner_sum unat 256 (bs :: byte list) < 256 ^ length bs"
proof (induction bs)
  case Nil
  then show ?case by simp
next
  case (Cons b bs)
  have "unat b < 256"
    using unsigned_less [of b] by simp
  moreover from Cons have "256 * horner_sum unat 256 bs + 256 \<le> 256 * 256 ^ length bs"
    by simp
  ultimately show ?case by simp
qed

lemma unat_u64_of_le:
  assumes "length bs \<le> 8"
  shows "unat (u64_of_le bs) = horner_sum unat 256 bs"
proof -
  have "(256::nat) ^ length bs \<le> 256 ^ 8"
    using assms by (intro power_increasing) simp_all
  with horner_sum_bytes_less [of bs] have "horner_sum unat 256 bs < 2 ^ 64"
    by simp
  then show ?thesis
    by (simp add: u64_of_le_horner unat_of_nat)
qed

lemma unat_u64_of_bytes:
  assumes "length bs = 8"
  shows "unat (u64_of_bytes bo bs) =
     (case bo of
        LittleEndian \<Rightarrow> (\<Sum>k = 0..<8. unat (bs ! k) * 256 ^ k)
      | BigEndian \<Rightarrow> (\<Sum>k = 0..<8. unat (bs ! (7 - k)) * 256 ^ k))"
proof (cases bo)
  case LittleEndian
  with assms show ?thesis
    by (simp add: u64_of_bytes_def unat_u64_of_le horner_sum_eq_sum del: upt_Suc)
next
  case BigEndian
  have "(\<Sum>k = 0..<8. unat (rev bs ! k) * 256 ^ k) = (\<Sum>k = 0..<8. unat (bs ! (7 - k)) * 256 ^ k)"
    using assms by (intro sum.cong) (simp_all add: rev_nth)
  with BigEndian assms show ?thesis
    by (simp add: u64_of_bytes_def unat_u64_of_le horner_sum_eq_sum)
qed

lemma size_t_mult_eq: "a * b < 2 ^ 64 \<Longrightarrow> size_t_mult a b = a * b"
  by (simp add: size_t_mult_def unat_word_ariths unat_of_nat mod_mult_eq)

subsection \<open>The store\<close>

lemma myType_Int_iff: "myType x = GiftedIntTypeId \<longleftrightarrow> (\<exists>v. x = GiftedIntegerType v)"
  by (cases x) simp_all

lemma deref_Some: "deref h p = Some x \<longleftrightarrow> p < length h \<and> h ! p = Some x"
  by (simp add: deref_def)

lemma deref_update:
  "deref (h[p := x]) q = (if q = p \<and> p < length h then x else deref h q)"
  by (simp add: deref_def)

lemma deref_append_None: "deref (h @ [None, None]) p = deref h p"
  by (auto simp add: deref_def nth_append less_Suc_eq)

subsection \<open>The loop of VectorizedEqual\<close>

text \<open>
  With at least eight bytes per element the loop runs to its end. It leaves in
  \<open>result[j]\<close>, for every \<open>j\<close> from \<open>i\<close> on, whether the eight bytes at \<open>j * w\<close> make
  the value of the literal instance, and changes nothing but the scratch instance.
\<close>

lemma VectorizedEqual_loop_correct:
  assumes "callerp < length h" and "literalp < length h" and "callerp \<noteq> literalp"
    and "h ! callerp = Some (GiftedIntegerType c)"
    and "h ! literalp = Some (GiftedIntegerType l)"
    and "n \<le> length result" and "8 \<le> w" and "n * w \<le> length vec"
    and "length vec < 2 ^ 64"
  shows "\<exists>h' res c'. VectorizedEqual_loop bo callerp literalp w (vec, 0) n i (h, result)
            = Some (h', res)
        \<and> h' = h[callerp := Some (GiftedIntegerType c')]
        \<and> length res = length result
        \<and> (\<forall>j < length result. res ! j =
              (if i \<le> j \<and> j < n then u64_of_bytes bo (take 8 (drop (j * w) vec)) = l
               else result ! j))"
  using assms
proof (induction "n - i" arbitrary: i h result c)
  case 0
  then have "\<not> i < n" by simp
  moreover from 0 have "h = h[callerp := Some (GiftedIntegerType c)]"
    by (metis list_update_id)
  ultimately show ?case
    by (subst VectorizedEqual_loop.simps) auto
next
  case (Suc k)
  then have i: "i < n" and k: "k = n - Suc i" by simp_all
  from i Suc.prems have "Suc i * w \<le> n * w" by (intro mult_le_mono1) simp
  with Suc.prems have in_bounds: "i * w + 8 \<le> length vec" by simp
  with Suc.prems have off: "size_t_mult i w = i * w"
    by (intro size_t_mult_eq) simp
  define v where "v = u64_of_bytes bo (take 8 (drop (i * w) vec))"
  define h1 where "h1 = h[callerp := Some (GiftedIntegerType v)]"
  define result1 where "result1 = result[i := (v = l)]"
  have um: "UnMarshall bo h callerp (ptr_add (vec, 0) (i * w)) w = Some h1"
    using Suc.prems in_bounds
    by (simp add: UnMarshall_def deref_def load_u64_def ptr_add_def h1_def v_def)
  have d1: "deref h1 callerp = Some (GiftedIntegerType v)"
    and d2: "deref h1 literalp = Some (GiftedIntegerType l)"
    using Suc.prems by (simp_all add: deref_def h1_def)
  have step: "VectorizedEqual_loop bo callerp literalp w (vec, 0) n i (h, result)
      = VectorizedEqual_loop bo callerp literalp w (vec, 0) n (Suc i) (h1, result1)"
    using i Suc.prems
    by (subst VectorizedEqual_loop.simps, unfold off) (simp add: um d1 d2 Equal_def result1_def)
  have "\<exists>h' res c'. VectorizedEqual_loop bo callerp literalp w (vec, 0) n (Suc i) (h1, result1)
            = Some (h', res)
        \<and> h' = h1[callerp := Some (GiftedIntegerType c')]
        \<and> length res = length result1
        \<and> (\<forall>j < length result1. res ! j =
              (if Suc i \<le> j \<and> j < n then u64_of_bytes bo (take 8 (drop (j * w) vec)) = l
               else result1 ! j))"
    using Suc.prems k
    by (intro Suc.hyps(1) [where c = v]) (simp_all add: h1_def result1_def)
  then obtain h' res c' where
    r: "VectorizedEqual_loop bo callerp literalp w (vec, 0) n (Suc i) (h1, result1) = Some (h', res)"
    and h': "h' = h1[callerp := Some (GiftedIntegerType c')]"
    and len: "length res = length result1"
    and res: "\<forall>j < length result1. res ! j =
              (if Suc i \<le> j \<and> j < n then u64_of_bytes bo (take 8 (drop (j * w) vec)) = l
               else result1 ! j)"
    by blast
  have "\<forall>j < length result. res ! j =
              (if i \<le> j \<and> j < n then u64_of_bytes bo (take 8 (drop (j * w) vec)) = l
               else result ! j)"
  proof (intro allI impI)
    fix j assume j: "j < length result"
    show "res ! j = (if i \<le> j \<and> j < n then u64_of_bytes bo (take 8 (drop (j * w) vec)) = l
               else result ! j)"
    proof (cases "j = i")
      case True
      with res j i Suc.prems show ?thesis
        by (simp add: result1_def v_def)
    next
      case False
      with res j show ?thesis
        by (auto simp add: result1_def)
    qed
  qed
  with r h' len show ?case
    unfolding step by (auto simp add: h1_def result1_def)
qed

lemma VectorizedEqual_correct:
  assumes "deref h this = Some (GiftedIntegerType v)"
    and "n \<le> length result" and "8 \<le> w" and "n * w \<le> length vec"
    and "length vec < 2 ^ 64" and "8 \<le> length lit"
  shows "\<exists>res. VectorizedEqual bo h this w (vec, 0) n (lit, 0) result
            = Some (h @ [None, None], res)
        \<and> length res = length result
        \<and> (\<forall>j < length result. res ! j =
              (if j < n
               then u64_of_bytes bo (take 8 (drop (j * w) vec)) = u64_of_bytes bo (take 8 lit)
               else result ! j))"
proof -
  define l where "l = u64_of_bytes bo (take 8 lit)"
  define callerp where "callerp = length h"
  define literalp where "literalp = Suc (length h)"
  define h2 where "h2 = h @ [Some (GiftedIntegerType 0), Some (GiftedIntegerType 0)]"
  define h3 where "h3 = h @ [Some (GiftedIntegerType 0), Some (GiftedIntegerType l)]"
  from assms(1) have live: "this < length h" "h ! this = Some (GiftedIntegerType v)"
    by (simp_all add: deref_Some)
  from live have c1: "Clone h this = Some (callerp, h @ [Some (GiftedIntegerType 0)])"
    by (simp add: Clone_def deref_def new_GiftedIntegerType_def callerp_def)
  from live have c2: "Clone (h @ [Some (GiftedIntegerType 0)]) this = Some (literalp, h2)"
    by (simp add: Clone_def deref_def new_GiftedIntegerType_def literalp_def h2_def nth_append)
  from assms(6) have um: "UnMarshall bo h2 literalp (lit, 0) w = Some h3"
    by (simp add: UnMarshall_def deref_def load_u64_def h2_def h3_def literalp_def l_def
        nth_append list_update_append)
  have "\<exists>h' res c'. VectorizedEqual_loop bo callerp literalp w (vec, 0) n 0 (h3, result)
            = Some (h', res)
        \<and> h' = h3[callerp := Some (GiftedIntegerType c')]
        \<and> length res = length result
        \<and> (\<forall>j < length result. res ! j =
              (if 0 \<le> j \<and> j < n then u64_of_bytes bo (take 8 (drop (j * w) vec)) = l
               else result ! j))"
    using assms
    by (intro VectorizedEqual_loop_correct [where c = 0])
      (simp_all add: h3_def callerp_def literalp_def nth_append)
  then obtain res c' where
    loop: "VectorizedEqual_loop bo callerp literalp w (vec, 0) n 0 (h3, result)
            = Some (h3[callerp := Some (GiftedIntegerType c')], res)"
    and len: "length res = length result"
    and res: "\<forall>j < length result. res ! j =
              (if j < n then u64_of_bytes bo (take 8 (drop (j * w) vec)) = l else result ! j)"
    by auto
  have h4: "h3[callerp := Some (GiftedIntegerType c')]
      = h @ [Some (GiftedIntegerType c'), Some (GiftedIntegerType l)]"
    by (simp add: h3_def callerp_def list_update_append)
  have d1: "delete (h @ [Some (GiftedIntegerType c'), Some (GiftedIntegerType l)]) callerp
      = Some (h @ [None, Some (GiftedIntegerType l)])"
    by (simp add: delete_def deref_def callerp_def nth_append list_update_append)
  have d2: "delete (h @ [None, Some (GiftedIntegerType l)]) literalp = Some (h @ [None, None])"
    by (simp add: delete_def deref_def literalp_def nth_append list_update_append)
  have "VectorizedEqual bo h this w (vec, 0) n (lit, 0) result = Some (h @ [None, None], res)"
    by (simp add: VectorizedEqual_def c1 c2 um loop h4 d1 d2)
  with len res show ?thesis
    by (auto simp add: l_def)
qed

lemma decode_eq:
  "8 \<le> length buf \<Longrightarrow> decode bo buf = Some (GiftedIntegerType (u64_of_bytes bo (take 8 buf)))"
  by (simp add: decode_def new_GiftedIntegerType_def UnMarshall_def deref_def load_u64_def)

lemma slice_decoded:
  assumes "8 \<le> w" and "Suc i * w \<le> length vec"
  shows "decode bo (take w (drop (i * w) vec))
    = Some (GiftedIntegerType (u64_of_bytes bo (take 8 (drop (i * w) vec))))"
proof -
  from assms have "8 \<le> length (take w (drop (i * w) vec))"
    by simp
  moreover from assms have "take 8 (take w (drop (i * w) vec)) = take 8 (drop (i * w) vec)"
    by (simp add: min_def)
  ultimately show ?thesis
    by (simp add: decode_eq)
qed

subsection \<open>The test data of the driver\<close>

lemma main_attrs_eq:
  "main_attrs bo = Some (0, 1, [Some (GiftedIntegerType 13), Some (GiftedIntegerType 26)])"
  by (simp add: main_attrs_def new_GiftedIntegerType_def UnMarshall_def deref_def load_u64_def
      length_bytes_of_u64 u64_of_bytes_of_u64)

lemma length_raw_data: "length (raw_data bo xs) = 8 * length xs"
  by (induction xs) (simp_all add: raw_data_def length_bytes_of_u64)

lemma raw_data_slice:
  "i < length xs \<Longrightarrow> take 8 (drop (i * 8) (raw_data bo xs)) = bytes_of_u64 bo (xs ! i)"
proof (induction xs arbitrary: i)
  case Nil
  then show ?case by simp
next
  case (Cons x xs)
  have split: "raw_data bo (x # xs) = bytes_of_u64 bo x @ raw_data bo xs"
    by (simp add: raw_data_def)
  show ?case
  proof (cases i)
    case 0
    then show ?thesis
      by (simp add: split length_bytes_of_u64)
  next
    case (Suc j)
    with Cons.prems have "j < length xs" by simp
    then have "take 8 (drop (j * 8) (raw_data bo xs)) = bytes_of_u64 bo (xs ! j)"
      by (rule Cons.IH)
    with Suc show ?thesis
      by (simp add: split length_bytes_of_u64)
  qed
qed

lemma onDiskB_eq_13: "i < 1024 \<Longrightarrow> onDiskB i = 13 \<longleftrightarrow> i = 13"
proof -
  assume i: "i < 1024"
  have w: "(word_of_nat k = (13 :: 64 word)) = (k = 13)" if "k < 2048" for k
  proof -
    from that have "take_bit 64 k = k"
      by (intro take_bit_nat_eq_self) simp
    moreover have "(13 :: 64 word) = word_of_nat 13"
      by simp
    ultimately show ?thesis
      by (simp only: word_of_nat_eq_iff) simp
  qed
  from i have "i < 2048" "i * 2 < 2048" by simp_all
  then have "(word_of_nat i = (13 :: 64 word)) = (i = 13)"
    and "(word_of_nat (i * 2) = (13 :: 64 word)) = (i * 2 = 13)"
    by (simp_all only: w)
  moreover have "i * 2 \<noteq> 13" by presburger
  ultimately show ?thesis
    by (auto simp add: onDiskB_def)
qed

section \<open>The claims of the specification\<close>

subsection \<open>Vectorized equality\<close>

text \<open>
  Claim C1. Let the receiver be a live integer instance, the element width \<open>w\<close> be the
  encoded width \<open>getLength\<close> of the variant, the vector buffer hold \<open>n\<close> elements of
  width \<open>w\<close> (fewer than \<open>2 ^ 64\<close> bytes in all, as any array in a 64-bit address space),
  the literal buffer hold \<open>w\<close> bytes and \<open>result\<close> have room for \<open>n\<close> booleans. Then
  \<open>VectorizedEqual\<close> returns; the array it leaves has length \<open>n\<close>; its entry \<open>i\<close> is what
  \<open>Equal\<close> answers for the instance decoded from bytes \<open>[i*w, (i+1)*w)\<close> of the vector
  and the instance decoded from the literal; for \<open>n = 0\<close> it is empty; and the store holds
  the same instances as before the call.
\<close>

theorem VectorizedEqual_decodes_and_compares:
  assumes "deref h this = Some (GiftedIntegerType v)"
    and "w = getLength"
    and "length vectorData = n * w" and "length vectorData < 2 ^ 64"
    and "length literalData = w"
    and "length result = n"
  shows "\<exists>h' res. VectorizedEqual bo h this w (vectorData, 0) n (literalData, 0) result
            = Some (h', res)
        \<and> length res = n
        \<and> (\<forall>i < n. \<exists>x l. decode bo (take w (drop (i * w) vectorData)) = Some x
                \<and> decode bo literalData = Some l
                \<and> res ! i = Equal x l b)
        \<and> (n = 0 \<longrightarrow> res = [])
        \<and> (\<forall>p. deref h' p = deref h p)"
proof -
  from assms(2) have width: "8 \<le> w"
    by (simp add: getLength_def)
  with assms obtain res where
    run: "VectorizedEqual bo h this w (vectorData, 0) n (literalData, 0) result
            = Some (h @ [None, None], res)"
    and len: "length res = n"
    and res: "\<forall>j < n. res ! j =
        (u64_of_bytes bo (take 8 (drop (j * w) vectorData)) = u64_of_bytes bo (take 8 literalData))"
    using VectorizedEqual_correct [of h this v n result w vectorData literalData bo]
    by auto
  have "\<exists>x l. decode bo (take w (drop (i * w) vectorData)) = Some x
          \<and> decode bo literalData = Some l \<and> res ! i = Equal x l b" if "i < n" for i
  proof -
    from that have "Suc i * w \<le> n * w"
      by (intro mult_le_mono1) simp
    with assms width have "decode bo (take w (drop (i * w) vectorData))
        = Some (GiftedIntegerType (u64_of_bytes bo (take 8 (drop (i * w) vectorData))))"
      by (intro slice_decoded) simp_all
    moreover from assms width have "decode bo literalData
        = Some (GiftedIntegerType (u64_of_bytes bo (take 8 literalData)))"
      by (intro decode_eq) simp
    ultimately show ?thesis
      using res that by (simp add: Equal_def)
  qed
  with run len show ?thesis
    by (auto simp add: deref_append_None)
qed

text \<open>Two elements 13 and 7 of width 8 against the literal 13, on a little-endian host.\<close>

theorem VectorizedEqual_decodes_and_compares_witness:
  "deref [Some (GiftedIntegerType 5)] 0 = Some (GiftedIntegerType 5)
   \<and> (8::nat) = getLength
   \<and> length [13, 0, 0, 0, 0, 0, 0, 0, 7, 0, 0, 0, 0, 0, 0, 0 :: byte] = 2 * 8
   \<and> length [13, 0, 0, 0, 0, 0, 0, 0, 7, 0, 0, 0, 0, 0, 0, 0 :: byte] < 2 ^ 64
   \<and> length [13, 0, 0, 0, 0, 0, 0, 0 :: byte] = 8
   \<and> length [False, False] = 2
   \<and> (\<exists>h' res. VectorizedEqual LittleEndian [Some (GiftedIntegerType 5)] 0 8
          ([13, 0, 0, 0, 0, 0, 0, 0, 7, 0, 0, 0, 0, 0, 0, 0], 0) 2
          ([13, 0, 0, 0, 0, 0, 0, 0], 0) [False, False] = Some (h', res)
        \<and> length res = 2 \<and> res ! 0 = True \<and> res ! 1 = False
        \<and> deref h' 0 = Some (GiftedIntegerType 5))"
proof -
  let ?h = "[Some (GiftedIntegerType 5)]"
  let ?vec = "[13, 0, 0, 0, 0, 0, 0, 0, 7, 0, 0, 0, 0, 0, 0, 0 :: byte]"
  let ?lit = "[13, 0, 0, 0, 0, 0, 0, 0 :: byte]"
  have hyps: "deref ?h 0 = Some (GiftedIntegerType 5)" "(8::nat) = getLength"
    "length ?vec = 2 * 8" "length ?vec < 2 ^ 64" "length ?lit = 8" "length [False, False] = 2"
    by (simp_all add: deref_def getLength_def)
  from VectorizedEqual_decodes_and_compares [OF hyps, of LittleEndian False]
  obtain h' res where run: "VectorizedEqual LittleEndian ?h 0 8 (?vec, 0) 2 (?lit, 0)
        [False, False] = Some (h', res)"
    and len: "length res = 2"
    and res: "\<And>i. i < 2 \<Longrightarrow> \<exists>x l. decode LittleEndian (take 8 (drop (i * 8) ?vec)) = Some x
                \<and> decode LittleEndian ?lit = Some l \<and> res ! i = Equal x l False"
    and frame: "\<And>p. deref h' p = deref ?h p"
    by blast
  from res [of 0] have r0: "res ! 0 = True"
    by (simp add: decode_eq u64_of_bytes_def Equal_def)
  from res [of 1] have r1: "res ! 1 = False"
    by (simp add: decode_eq u64_of_bytes_def Equal_def)
  from hyps run len r0 r1 frame [of 0] show ?thesis
    by simp
qed

subsection \<open>Operands of different types\<close>

text \<open>
  Claim C2, as the code has it. Let \<open>this\<close> be a live integer instance and \<open>right\<close> a
  live instance with another type identifier. \<open>Equal\<close>, \<open>LessThan\<close> and
  \<open>LessThanOrEqual\<close> return the output parameter as it was on entry, and \<open>AddToLeft\<close>
  returns the store as it was; nothing signals the mismatch. \<open>NotEqual\<close>, \<open>GreaterThan\<close>
  and \<open>GreaterThanOrEqual\<close> return the negation of the entry value. \<open>UnMarshall\<close> does
  not look at its length argument: whenever eight bytes can be read at the payload, they
  become the value of the receiver, whatever length is passed.
\<close>

theorem mismatch_handling:
  assumes "deref h p = Some this" and "deref h q = Some right"
    and "myType this = GiftedIntTypeId" and "myType right \<noteq> myType this"
    and "off + 8 \<le> length buf"
  shows "Equal this right r = r
       \<and> LessThan this right r = r
       \<and> LessThanOrEqual this right r = r
       \<and> NotEqual this right r = (\<not> r)
       \<and> GreaterThan this right r = (\<not> r)
       \<and> GreaterThanOrEqual this right r = (\<not> r)
       \<and> AddToLeft h p q = Some h
       \<and> UnMarshall bo h p (buf, off) length'
           = Some (h[p := Some (GiftedIntegerType (u64_of_bytes bo (take 8 (drop off buf))))])"
  using assms
  by (auto simp add: Equal_def LessThan_def LessThanOrEqual_def NotEqual_def GreaterThan_def
      GreaterThanOrEqual_def AddToLeft_def UnMarshall_def load_u64_def myType_Int_iff)

theorem mismatch_handling_witness:
  "deref [Some (GiftedIntegerType 7), Some GiftedUnknownType] 0 = Some (GiftedIntegerType 7)
   \<and> deref [Some (GiftedIntegerType 7), Some GiftedUnknownType] 1 = Some GiftedUnknownType
   \<and> myType (GiftedIntegerType 7) = GiftedIntTypeId
   \<and> myType GiftedUnknownType \<noteq> myType (GiftedIntegerType 7)
   \<and> (0::nat) + 8 \<le> length [13, 0, 0, 0, 0, 0, 0, 0, 0, 0, 0, 0, 0, 0, 0, 0 :: byte]
   \<and> Equal (GiftedIntegerType 7) GiftedUnknownType True = True
   \<and> LessThanOrEqual (GiftedIntegerType 7) GiftedUnknownType False = False
   \<and> GreaterThan (GiftedIntegerType 7) GiftedUnknownType False = True
   \<and> AddToLeft [Some (GiftedIntegerType 7), Some GiftedUnknownType] 0 1
       = Some [Some (GiftedIntegerType 7), Some GiftedUnknownType]
   \<and> UnMarshall LittleEndian [Some (GiftedIntegerType 7), Some GiftedUnknownType] 0
        ([13, 0, 0, 0, 0, 0, 0, 0, 0, 0, 0, 0, 0, 0, 0, 0], 0) 16
       = Some [Some (GiftedIntegerType 13), Some GiftedUnknownType]"
  using mismatch_handling [of "[Some (GiftedIntegerType 7), Some GiftedUnknownType]" 0
      "GiftedIntegerType 7" 1 GiftedUnknownType 0
      "[13, 0, 0, 0, 0, 0, 0, 0, 0, 0, 0, 0, 0, 0, 0, 0]" True LittleEndian 16]
    mismatch_handling [of "[Some (GiftedIntegerType 7), Some GiftedUnknownType]" 0
      "GiftedIntegerType 7" 1 GiftedUnknownType 0
      "[13, 0, 0, 0, 0, 0, 0, 0, 0, 0, 0, 0, 0, 0, 0, 0]" False LittleEndian 16]
  by (simp add: deref_def u64_of_bytes_def)

text \<open>
  The specification has every comparison and \<open>decode\<close> leave the output or the receiver
  unchanged. With \<open>false\<close> in the output on entry, the three negating comparators return
  \<open>true\<close>; and \<open>UnMarshall\<close>, given a 16-byte buffer and length 16 where \<open>getLength\<close> is
  8, replaces the value 0 by 13.
\<close>

theorem mismatch_not_ignored_counterexample:
  "myType GiftedUnknownType \<noteq> myType (GiftedIntegerType 0)
   \<and> NotEqual (GiftedIntegerType 0) GiftedUnknownType False = True
   \<and> GreaterThan (GiftedIntegerType 0) GiftedUnknownType False = True
   \<and> GreaterThanOrEqual (GiftedIntegerType 0) GiftedUnknownType False = True
   \<and> length [13, 0, 0, 0, 0, 0, 0, 0, 0, 0, 0, 0, 0, 0, 0, 0 :: byte] \<noteq> getLength
   \<and> UnMarshall LittleEndian [Some (GiftedIntegerType 0)] 0
        ([13, 0, 0, 0, 0, 0, 0, 0, 0, 0, 0, 0, 0, 0, 0, 0], 0) 16
       = Some [Some (GiftedIntegerType 13)]"
  by (simp add: NotEqual_def GreaterThan_def GreaterThanOrEqual_def LessThanOrEqual_def
      Equal_def LessThan_def getLength_def UnMarshall_def deref_def load_u64_def u64_of_bytes_def)

subsection \<open>Comparisons between two integer instances\<close>

text \<open>
  Claim C3. For two instances of the integer variant, the derived comparators of the
  base class agree with their definitions from the two primitives, whatever the output
  parameters held on entry: \<open>NotEqual\<close> is the negation of \<open>Equal\<close>, \<open>LessThanOrEqual\<close>
  is \<open>LessThan\<close> or \<open>Equal\<close>, \<open>GreaterThan\<close> is the negation of \<open>LessThanOrEqual\<close>, and
  \<open>GreaterThanOrEqual\<close> is the negation of \<open>LessThan\<close>.
\<close>

theorem derived_comparators_consistent:
  assumes "myType a = GiftedIntTypeId" and "myType b = myType a"
  shows "NotEqual a b r = (\<not> Equal a b r')
       \<and> LessThanOrEqual a b r = (LessThan a b r' \<or> Equal a b r'')
       \<and> GreaterThan a b r = (\<not> LessThanOrEqual a b r')
       \<and> GreaterThanOrEqual a b r = (\<not> LessThan a b r')"
  using assms
  by (auto simp add: NotEqual_def LessThanOrEqual_def GreaterThan_def GreaterThanOrEqual_def
      Equal_def LessThan_def)

theorem derived_comparators_consistent_witness:
  "myType (GiftedIntegerType 13) = GiftedIntTypeId
   \<and> myType (GiftedIntegerType 26) = myType (GiftedIntegerType 13)
   \<and> NotEqual (GiftedIntegerType 13) (GiftedIntegerType 26) False
       = (\<not> Equal (GiftedIntegerType 13) (GiftedIntegerType 26) True)
   \<and> LessThanOrEqual (GiftedIntegerType 13) (GiftedIntegerType 26) False
       = (LessThan (GiftedIntegerType 13) (GiftedIntegerType 26) False
          \<or> Equal (GiftedIntegerType 13) (GiftedIntegerType 26) True)
   \<and> GreaterThan (GiftedIntegerType 13) (GiftedIntegerType 26) True
       = (\<not> LessThanOrEqual (GiftedIntegerType 13) (GiftedIntegerType 26) False)
   \<and> GreaterThanOrEqual (GiftedIntegerType 13) (GiftedIntegerType 26) True
       = (\<not> LessThan (GiftedIntegerType 13) (GiftedIntegerType 26) False)"
  using derived_comparators_consistent [of "GiftedIntegerType 13" "GiftedIntegerType 26"]
  by simp

subsection \<open>The factory\<close>

text \<open>
  Claim C4. \<open>Clone\<close> on a live integer instance \<open>x\<close> returns a pointer \<open>p\<close> that named
  no instance before; every other cell of the store, \<open>x\<close> among them, is as it was; the
  new instance has the type identifier of \<open>x\<close> and the value 0, whatever the value of
  \<open>x\<close>; so it differs from \<open>x\<close> whenever the value of \<open>x\<close> is not 0.
\<close>

theorem Clone_is_default_factory:
  assumes "deref h x = Some (GiftedIntegerType v)"
  shows "\<exists>p h'. Clone h x = Some (p, h')
       \<and> deref h p = None
       \<and> (\<forall>q. q \<noteq> p \<longrightarrow> deref h' q = deref h q)
       \<and> (\<exists>y. deref h' p = Some y \<and> myType y = myType (GiftedIntegerType v) \<and> value' y = 0)
       \<and> (v \<noteq> 0 \<longrightarrow> deref h' p \<noteq> deref h x)"
  using assms
  by (auto simp add: Clone_def new_GiftedIntegerType_def deref_def nth_append split: if_splits)

theorem Clone_is_default_factory_witness:
  "deref [Some (GiftedIntegerType 13)] 0 = Some (GiftedIntegerType 13)
   \<and> Clone [Some (GiftedIntegerType 13)] 0
       = Some (1, [Some (GiftedIntegerType 13), Some (GiftedIntegerType 0)])
   \<and> deref [Some (GiftedIntegerType 13)] 1 = None
   \<and> myType (GiftedIntegerType 0) = myType (GiftedIntegerType 13)
   \<and> deref [Some (GiftedIntegerType 13), Some (GiftedIntegerType 0)] 1
       \<noteq> deref [Some (GiftedIntegerType 13), Some (GiftedIntegerType 0)] 0"
  using Clone_is_default_factory [of "[Some (GiftedIntegerType 13)]" 0 13]
  by (simp add: deref_def Clone_def new_GiftedIntegerType_def)

subsection \<open>The two scenarios of the driver\<close>

text \<open>
  Claim C5. After the driver has decoded 13 into \<open>anAttr\<close> and 26 into \<open>anotherAttr\<close>,
  each from eight bytes: \<open>Equal\<close> answers false, \<open>LessThan\<close> true, \<open>NotEqual\<close> true,
  \<open>LessThanOrEqual\<close> true, \<open>GreaterThan\<close> false and \<open>GreaterThanOrEqual\<close> false,
  whatever the output held before; and \<open>AddToLeft\<close> leaves 39 in \<open>anAttr\<close> and 26 in
  \<open>anotherAttr\<close>. This holds on either byte order.
\<close>

theorem scenario_A:
  "\<exists>anAttr anotherAttr h X Y. main_attrs bo = Some (anAttr, anotherAttr, h)
     \<and> deref h anAttr = Some X \<and> deref h anotherAttr = Some Y
     \<and> value' X = 13 \<and> value' Y = 26
     \<and> Equal X Y r = False
     \<and> LessThan X Y r = True
     \<and> NotEqual X Y r = True
     \<and> LessThanOrEqual X Y r = True
     \<and> GreaterThan X Y r = False
     \<and> GreaterThanOrEqual X Y r = False
     \<and> (\<exists>h'. AddToLeft h anAttr anotherAttr = Some h'
           \<and> deref h' anAttr = Some (GiftedIntegerType 39)
           \<and> deref h' anotherAttr = Some Y)"
  by (simp add: main_attrs_eq deref_def Equal_def LessThan_def NotEqual_def LessThanOrEqual_def
      GreaterThan_def GreaterThanOrEqual_def AddToLeft_def)

theorem scenario_A_witness:
  "main_attrs LittleEndian
     = Some (0, 1, [Some (GiftedIntegerType 13), Some (GiftedIntegerType 26)])
   \<and> Equal (GiftedIntegerType 13) (GiftedIntegerType 26) True = False
   \<and> GreaterThan (GiftedIntegerType 13) (GiftedIntegerType 26) True = False
   \<and> AddToLeft [Some (GiftedIntegerType 13), Some (GiftedIntegerType 26)] 0 1
     = Some [Some (GiftedIntegerType 39), Some (GiftedIntegerType 26)]"
  using scenario_A [of LittleEndian True]
  by (simp add: main_attrs_def new_GiftedIntegerType_def UnMarshall_def deref_def load_u64_def
      bytes_of_u64_def upt8 u64_of_bytes_def Equal_def GreaterThan_def LessThanOrEqual_def
      LessThan_def AddToLeft_def)

text \<open>
  Claim C6. On the vector of 1024 elements whose element \<open>i\<close> is \<open>i\<close> for odd \<open>i\<close> and
  \<open>i*2\<close> for even \<open>i\<close>, with element width \<open>getLength\<close> and the literal 13,
  \<open>VectorizedEqual\<close> returns an array that is true at index 13 and false at every other
  index. This holds on either byte order.
\<close>

theorem scenario_B:
  assumes "deref h this = Some (GiftedIntegerType v)"
    and "length result = vectorCardinality"
  shows "\<exists>h' res. VectorizedEqual bo h this getLength
              (raw_data bo (map onDiskB [0..<vectorCardinality]), 0) vectorCardinality
              (bytes_of_u64 bo 13, 0) result = Some (h', res)
       \<and> length res = 1024
       \<and> (\<forall>i < 1024. res ! i = (i = 13))"
proof -
  let ?vec = "raw_data bo (map onDiskB [0..<1024])"
  have len: "length ?vec = 1024 * 8"
    by (simp add: length_raw_data)
  with assms obtain res where
    run: "VectorizedEqual bo h this 8 (?vec, 0) 1024 (bytes_of_u64 bo 13, 0) result
            = Some (h @ [None, None], res)"
    and lres: "length res = 1024"
    and res: "\<forall>j < 1024. res ! j =
        (u64_of_bytes bo (take 8 (drop (j * 8) ?vec))
          = u64_of_bytes bo (take 8 (bytes_of_u64 bo 13)))"
    using VectorizedEqual_correct [of h this v 1024 result 8 ?vec "bytes_of_u64 bo 13" bo]
    by (auto simp add: vectorCardinality_def length_bytes_of_u64)
  have "res ! i = (i = 13)" if "i < 1024" for i
  proof -
    from that have "take 8 (drop (i * 8) ?vec) = bytes_of_u64 bo (onDiskB i)"
      by (simp add: raw_data_slice del: upt_Suc)
    with res that show ?thesis
      by (simp add: length_bytes_of_u64 u64_of_bytes_of_u64 onDiskB_eq_13)
  qed
  with run lres show ?thesis
    by (simp add: getLength_def vectorCardinality_def)
qed

theorem scenario_B_witness:
  "deref [Some (GiftedIntegerType 0)] 0 = Some (GiftedIntegerType 0)
   \<and> length (replicate 1024 False) = vectorCardinality
   \<and> (\<exists>h' res. VectorizedEqual LittleEndian [Some (GiftedIntegerType 0)] 0 getLength
              (raw_data LittleEndian (map onDiskB [0..<vectorCardinality]), 0) vectorCardinality
              (bytes_of_u64 LittleEndian 13, 0) (replicate 1024 False) = Some (h', res)
        \<and> length res = 1024
        \<and> res ! 13 = True \<and> res ! 12 = False \<and> res ! 26 = False \<and> res ! 1023 = False)"
proof -
  have hyps: "deref [Some (GiftedIntegerType 0)] 0 = Some (GiftedIntegerType 0)"
    "length (replicate 1024 False) = vectorCardinality"
    by (simp_all add: deref_def vectorCardinality_def)
  from scenario_B [OF hyps, of LittleEndian]
  obtain h' res where "VectorizedEqual LittleEndian [Some (GiftedIntegerType 0)] 0 getLength
              (raw_data LittleEndian (map onDiskB [0..<vectorCardinality]), 0) vectorCardinality
              (bytes_of_u64 LittleEndian 13, 0) (replicate 1024 False) = Some (h', res)"
    and "length res = 1024" and "\<And>i. i < 1024 \<Longrightarrow> res ! i = (i = 13)"
    by blast
  with hyps show ?thesis
    by simp
qed

subsection \<open>Addition\<close>

text \<open>
  Claim C7, as the code has it. For two live integer instances, \<open>AddToLeft\<close> leaves in
  the receiver the sum of the two values modulo \<open>2 ^ 64\<close> and changes no other cell of the
  store. So the right operand keeps its value when it is another instance than the
  receiver; when the receiver is its own right operand, the one instance ends with twice
  its value modulo \<open>2 ^ 64\<close>.
\<close>

theorem AddToLeft_wraps:
  assumes "deref h this = Some (GiftedIntegerType a)"
    and "deref h right = Some (GiftedIntegerType b)"
  shows "\<exists>h'. AddToLeft h this right = Some h'
       \<and> deref h' this = Some (GiftedIntegerType (a + b))
       \<and> unat (a + b) = (unat a + unat b) mod 2 ^ 64
       \<and> (right \<noteq> this \<longrightarrow> deref h' right = Some (GiftedIntegerType b))
       \<and> (right = this \<longrightarrow> deref h' right = Some (GiftedIntegerType (b + b)))
       \<and> (\<forall>p. p \<noteq> this \<longrightarrow> deref h' p = deref h p)"
proof -
  from assms have live: "this < length h"
    by (simp add: deref_Some)
  from assms have "AddToLeft h this right = Some (h[this := Some (GiftedIntegerType (a + b))])"
    by (simp add: AddToLeft_def)
  with assms live show ?thesis
    by (auto simp add: deref_update unat_word_ariths)
qed

text \<open>\<open>2 ^ 64 - 1\<close> plus 3 is 2, and the right operand still holds 3.\<close>

theorem AddToLeft_wraps_witness:
  "deref [Some (GiftedIntegerType (- 1)), Some (GiftedIntegerType 3)] 0
       = Some (GiftedIntegerType (- 1))
   \<and> deref [Some (GiftedIntegerType (- 1)), Some (GiftedIntegerType 3)] 1
       = Some (GiftedIntegerType 3)
   \<and> AddToLeft [Some (GiftedIntegerType (- 1)), Some (GiftedIntegerType 3)] 0 1
       = Some [Some (GiftedIntegerType 2), Some (GiftedIntegerType 3)]
   \<and> unat (- 1 + 3 :: 64 word) = (18446744073709551615 + 3) mod 2 ^ 64"
  using AddToLeft_wraps [of "[Some (GiftedIntegerType (- 1)), Some (GiftedIntegerType 3)]" 0
      "- 1" 1 3]
  by (simp add: deref_def AddToLeft_def)

text \<open>
  The specification has the right operand unchanged for every pair of instances. In
  \<open>x.AddToLeft(x)\<close> the right operand is the receiver: it holds 13 before the call and 26
  after it.
\<close>

theorem AddToLeft_alias_counterexample:
  "deref [Some (GiftedIntegerType 13)] 0 = Some (GiftedIntegerType 13)
   \<and> AddToLeft [Some (GiftedIntegerType 13)] 0 0 = Some [Some (GiftedIntegerType 26)]
   \<and> deref [Some (GiftedIntegerType 26)] 0 \<noteq> deref [Some (GiftedIntegerType 13)] 0"
  by (simp add: deref_def AddToLeft_def)

subsection \<open>Width and decoding\<close>

text \<open>
  Claim C8. \<open>getLength\<close> is 8. \<open>UnMarshall\<close> on a buffer of that many bytes sets the
  value of the receiver to the unsigned integer whose base-256 digits are the bytes of
  the buffer in the byte order of the host (the first byte the lowest digit on a
  little-endian host, the highest on a big-endian one); in particular the bytes that
  the host stores for a 64-bit integer decode to that integer.
\<close>

theorem UnMarshall_reads_unsigned_host_order:
  assumes "deref h this = Some (GiftedIntegerType v)" and "length buf = getLength"
  shows "getLength = 8
       \<and> (\<exists>v'. UnMarshall bo h this (buf, 0) getLength
                  = Some (h[this := Some (GiftedIntegerType v')])
              \<and> unat v' = (case bo of
                   LittleEndian \<Rightarrow> (\<Sum>k = 0..<8. unat (buf ! k) * 256 ^ k)
                 | BigEndian \<Rightarrow> (\<Sum>k = 0..<8. unat (buf ! (7 - k)) * 256 ^ k))
              \<and> (\<forall>x. buf = bytes_of_u64 bo x \<longrightarrow> v' = x))"
proof -
  from assms(2) have len: "length buf = 8"
    by (simp add: getLength_def)
  with assms(1) have "UnMarshall bo h this (buf, 0) getLength
      = Some (h[this := Some (GiftedIntegerType (u64_of_bytes bo buf))])"
    by (simp add: UnMarshall_def load_u64_def)
  with len show ?thesis
    by (auto simp add: getLength_def unat_u64_of_bytes u64_of_bytes_of_u64)
qed

theorem UnMarshall_reads_unsigned_host_order_witness:
  "deref [Some (GiftedIntegerType 0)] 0 = Some (GiftedIntegerType 0)
   \<and> length [1, 2, 0, 0, 0, 0, 0, 0 :: byte] = getLength
   \<and> bytes_of_u64 LittleEndian 513 = [1, 2, 0, 0, 0, 0, 0, 0]
   \<and> UnMarshall LittleEndian [Some (GiftedIntegerType 0)] 0 ([1, 2, 0, 0, 0, 0, 0, 0], 0) getLength
       = Some [Some (GiftedIntegerType 513)]
   \<and> bytes_of_u64 BigEndian 144396663052566528 = [2, 1, 0, 0, 0, 0, 0, 0]
   \<and> UnMarshall BigEndian [Some (GiftedIntegerType 0)] 0 ([2, 1, 0, 0, 0, 0, 0, 0], 0) getLength
       = Some [Some (GiftedIntegerType 144396663052566528)]"
proof -
  let ?h = "[Some (GiftedIntegerType 0)]"
  have le: "bytes_of_u64 LittleEndian 513 = [1, 2, 0, 0, 0, 0, 0, 0]"
    and be: "bytes_of_u64 BigEndian 144396663052566528 = [2, 1, 0, 0, 0, 0, 0, 0]"
    by (simp_all add: bytes_of_u64_def upt8)
  have live: "deref ?h 0 = Some (GiftedIntegerType 0)"
    by (simp add: deref_def)
  have len: "length [1, 2, 0, 0, 0, 0, 0, 0 :: byte] = getLength"
    "length [2, 1, 0, 0, 0, 0, 0, 0 :: byte] = getLength"
    by (simp_all add: getLength_def)
  from UnMarshall_reads_unsigned_host_order [OF live len(1), of LittleEndian]
  obtain v' where "UnMarshall LittleEndian ?h 0 ([1, 2, 0, 0, 0, 0, 0, 0], 0) getLength
      = Some (?h[0 := Some (GiftedIntegerType v')])"
    and "\<forall>x. [1, 2, 0, 0, 0, 0, 0, 0] = bytes_of_u64 LittleEndian x \<longrightarrow> v' = x"
    by blast
  with le have r1: "UnMarshall LittleEndian ?h 0 ([1, 2, 0, 0, 0, 0, 0, 0], 0) getLength
      = Some [Some (GiftedIntegerType 513)]"
    by simp
  from UnMarshall_reads_unsigned_host_order [OF live len(2), of BigEndian]
  obtain v'' where "UnMarshall BigEndian ?h 0 ([2, 1, 0, 0, 0, 0, 0, 0], 0) getLength
      = Some (?h[0 := Some (GiftedIntegerType v'')])"
    and "\<forall>x. [2, 1, 0, 0, 0, 0, 0, 0] = bytes_of_u64 BigEndian x \<longrightarrow> v'' = x"
    by blast
  with be have r2: "UnMarshall BigEndian ?h 0 ([2, 1, 0, 0, 0, 0, 0, 0], 0) getLength
      = Some [Some (GiftedIntegerType 144396663052566528)]"
    by simp
  from le be live len(1) r1 r2 show ?thesis
    by simp
qed

subsection \<open>Equality and order\<close>

text \<open>
  Claim C9. On instances of the integer variant, \<open>Equal\<close> is reflexive and symmetric
  and \<open>LessThan\<close> is transitive, whatever the output parameters held on entry.
\<close>

theorem Equal_reflexive_symmetric_LessThan_transitive:
  assumes "myType a = GiftedIntTypeId" and "myType b = GiftedIntTypeId"
    and "myType c = GiftedIntTypeId"
  shows "Equal a a r = True
       \<and> Equal a b r = Equal b a r'
       \<and> (LessThan a b r \<and> LessThan b c r' \<longrightarrow> LessThan a c r'')"
  using assms by (auto simp add: Equal_def LessThan_def)

theorem Equal_reflexive_symmetric_LessThan_transitive_witness:
  "myType (GiftedIntegerType 13) = GiftedIntTypeId
   \<and> myType (GiftedIntegerType 26) = GiftedIntTypeId
   \<and> myType (GiftedIntegerType 39) = GiftedIntTypeId
   \<and> Equal (GiftedIntegerType 13) (GiftedIntegerType 13) False = True
   \<and> Equal (GiftedIntegerType 13) (GiftedIntegerType 26) True
       = Equal (GiftedIntegerType 26) (GiftedIntegerType 13) False
   \<and> LessThan (GiftedIntegerType 13) (GiftedIntegerType 26) False
   \<and> LessThan (GiftedIntegerType 26) (GiftedIntegerType 39) False
   \<and> LessThan (GiftedIntegerType 13) (GiftedIntegerType 39) False"
  using Equal_reflexive_symmetric_LessThan_transitive [of "GiftedIntegerType 13"
      "GiftedIntegerType 26" "GiftedIntegerType 39" False False False]
  by (simp add: Equal_def LessThan_def)

subsection \<open>Derived comparators on a type mismatch\<close>

text \<open>
  Claim C10. When the type identifier of the right operand differs from that of the
  integer receiver, \<open>NotEqual\<close>, \<open>GreaterThan\<close> and \<open>GreaterThanOrEqual\<close> each return the
  negation of what the output parameter held on entry, because \<open>Equal\<close> and \<open>LessThan\<close>
  return it as it was. \<open>LessThanOrEqual\<close> reaches its \<open>Equal\<close> fallback when the entry
  value is false, and returns the entry value as well.
\<close>

theorem derived_comparators_negate_on_mismatch:
  assumes "myType this = GiftedIntTypeId" and "myType right \<noteq> myType this"
  shows "NotEqual this right r = (\<not> r)
       \<and> GreaterThan this right r = (\<not> r)
       \<and> GreaterThanOrEqual this right r = (\<not> r)
       \<and> Equal this right r = r
       \<and> LessThan this right r = r
       \<and> LessThanOrEqual this right r = r"
  using assms
  by (simp add: NotEqual_def GreaterThan_def GreaterThanOrEqual_def LessThanOrEqual_def
      Equal_def LessThan_def)

theorem derived_comparators_negate_on_mismatch_witness:
  "myType (GiftedIntegerType 13) = GiftedIntTypeId
   \<and> myType GiftedUnknownType \<noteq> myType (GiftedIntegerType 13)
   \<and> NotEqual (GiftedIntegerType 13) GiftedUnknownType False = True
   \<and> GreaterThan (GiftedIntegerType 13) GiftedUnknownType False = True
   \<and> GreaterThanOrEqual (GiftedIntegerType 13) GiftedUnknownType True = False
   \<and> LessThanOrEqual (GiftedIntegerType 13) GiftedUnknownType False = False"
  using derived_comparators_negate_on_mismatch [of "GiftedIntegerType 13" GiftedUnknownType False]
    derived_comparators_negate_on_mismatch [of "GiftedIntegerType 13" GiftedUnknownType True]
  by simp

end
